theory Spec2Isabelle
  imports Main "HOL-Library.Word" "HOL-Library.Signed_Division"
begin

section \<open>The QtMultimedia output plugin (src/qtaudio/qtaudio.cc)\<close>

text \<open>
  The plugin is a set of C++ functions over file-level statics. The model passes those
  statics as a record, returns the updated record, and logs every call the plugin makes
  to a collaborator (the Qt device, the pthread primitives, the host's error dialog) in
  the order the source makes it. What a collaborator answers is an argument of the
  modelled function: nothing is assumed about the device beyond the type of its answers.
  The debug output of \<^verbatim>\<open>AUDDBG\<close> is left out.
\<close>

subsection \<open>Machine integers\<close>

text \<open>
  \<^verbatim>\<open>int\<close> and \<^verbatim>\<open>unsigned int\<close> are 32-bit words, \<^verbatim>\<open>int64_t\<close> a 64-bit word.
  \<open>+\<close>, \<open>-\<close> and \<open>*\<close> wrap around (signed overflow is undefined in C++; the model takes the
  two's complement result). \<open>div\<close> and \<open>mod\<close> on words are the unsigned operations;
  \<open>sint\<close> reads a word as a signed value, \<open>scast\<close> converts between widths keeping that
  value where it fits.
\<close>

type_synonym int32 = "32 word"
type_synonym uint32 = "32 word"
type_synonym int64 = "64 word"

datatype fault = NullPointer | DivideByZero | DivideOverflow

text \<open>C++ signed division truncates towards zero.\<close>

definition tdiv :: "'a::len word \<Rightarrow> 'a word \<Rightarrow> 'a word" where
  "tdiv a b = word_of_int (sint a sdiv sint b)"

text \<open>
  A signed division whose divisor is not a constant: the program is killed when the
  divisor is zero and when the most negative value is divided by \<open>-1\<close>.
\<close>

definition c_div :: "'a::len word \<Rightarrow> 'a word \<Rightarrow> fault + 'a word" where
  "c_div a b =
     (if b = 0 then Inl DivideByZero
      else if sint a = - (2 ^ (LENGTH('a) - 1)) \<and> sint b = - 1 then Inl DivideOverflow
      else Inr (tdiv a b))"

text \<open>
  Modelled from the spec: \<^verbatim>\<open>aud::max\<close> is a template of libaudcore, not in this repository;
  the spec has it as the larger of left and right, here on \<^verbatim>\<open>int\<close>: \<^verbatim>\<open>a > b ? a : b\<close>.
\<close>

definition aud_max :: "int32 \<Rightarrow> int32 \<Rightarrow> int32" where
  "aud_max a b = (if b <s a then a else b)"

subsection \<open>Data\<close>

text \<open>
  The format codes are enumerators of libaudcore, whose header is not in this repository.
  The model has the nine that the table names, and \<open>FMT_OTHER\<close> of the value for every
  other value of the \<^verbatim>\<open>int\<close> argument.
\<close>

datatype aud_format =
    FMT_S16_LE | FMT_S16_BE | FMT_U16_LE | FMT_U16_BE
  | FMT_S32_LE | FMT_S32_BE | FMT_U32_LE | FMT_U32_BE
  | FMT_FLOAT
  | FMT_OTHER int32

datatype SampleType = SignedInt | UnSignedInt | Float
datatype Endian = BigEndian | LittleEndian

record FormatDescriptionMap =
  aud_format :: aud_format
  sample_size :: uint32
  sample_type :: SampleType
  endian :: Endian

definition FormatMap :: "FormatDescriptionMap list" where
  "FormatMap =
    [\<lparr>aud_format = FMT_S16_LE, sample_size = 16, sample_type = SignedInt, endian = LittleEndian\<rparr>,
     \<lparr>aud_format = FMT_S16_BE, sample_size = 16, sample_type = SignedInt, endian = BigEndian\<rparr>,
     \<lparr>aud_format = FMT_U16_LE, sample_size = 16, sample_type = UnSignedInt, endian = LittleEndian\<rparr>,
     \<lparr>aud_format = FMT_U16_BE, sample_size = 16, sample_type = UnSignedInt, endian = BigEndian\<rparr>,
     \<lparr>aud_format = FMT_S32_LE, sample_size = 32, sample_type = SignedInt, endian = LittleEndian\<rparr>,
     \<lparr>aud_format = FMT_S32_BE, sample_size = 32, sample_type = SignedInt, endian = BigEndian\<rparr>,
     \<lparr>aud_format = FMT_U32_LE, sample_size = 32, sample_type = UnSignedInt, endian = LittleEndian\<rparr>,
     \<lparr>aud_format = FMT_U32_BE, sample_size = 32, sample_type = UnSignedInt, endian = BigEndian\<rparr>,
     \<lparr>aud_format = FMT_FLOAT, sample_size = 32, sample_type = Float, endian = LittleEndian\<rparr>]"

record QAudioFormat =
  sampleRate :: int32
  channelCount :: int32
  sampleSize :: uint32
  codec :: string
  byteOrder :: Endian
  sampleType :: SampleType

record StereoVolume =
  left :: int32
  right :: int32

type_synonym ptr = nat

text \<open>
  The \<^verbatim>\<open>float\<close> handed to \<^verbatim>\<open>QAudioOutput::setVolume\<close>. Floating point is not modelled:
  the value is kept as the expression that computes it, \<open>Powf10 v\<close> standing for
  \<^verbatim>\<open>powf (10, (float) VOLUME_RANGE * (v - 100) / 100 / 20)\<close>.
\<close>

datatype factor = Zero | Powf10 int32

datatype message = UnsupportedFormat aud_format | UnsupportedByBackend

text \<open>The calls to collaborators, as logged.\<close>

datatype event =
    ShowError message
  | MutexLock | MutexUnlock | CondBroadcast | CondTimedWait
  | IsFormatSupported QAudioFormat
  | NewQAudioOutput QAudioFormat ptr
  | SetBufferSize ptr int32
  | Start ptr | Stop ptr | Delete ptr | Reset ptr | Suspend ptr | Resume ptr
  | SetVolume ptr factor
  | BytesFree ptr | BufferSize ptr
  | DeviceWrite ptr "8 word list" int32

text \<open>
  The statics of the file, the settings store of libaudcore (a value for every section
  and key; the section \<open>None\<close> is \<^verbatim>\<open>nullptr\<close>), and the log.
\<close>

record qtaudio =
  chan :: int32
  rate :: int32
  buffer_size :: int32
  buffer_bytes_per_channel :: int32
  frames_written :: int64
  output_instance :: "ptr option"
  buffer_instance :: "ptr option"
  config :: "string option \<times> string \<Rightarrow> int32"
  calls :: "event list"

text \<open>
  What the Qt backend answers during \<^verbatim>\<open>open_audio\<close>: whether the default output device
  supports a format, the address of the new \<^verbatim>\<open>QAudioOutput\<close>, and the \<^verbatim>\<open>QIODevice\<close> that
  \<^verbatim>\<open>start\<close> returns (which Qt may leave null).
\<close>

record backend =
  isFormatSupported :: "QAudioFormat \<Rightarrow> bool"
  new_QAudioOutput :: ptr
  start :: "ptr option"

definition log :: "event list \<Rightarrow> qtaudio \<Rightarrow> qtaudio" where
  "log es s = s\<lparr>calls := calls s @ es\<rparr>"

text \<open>
  Modelled from the spec: the settings store is libaudcore's, not in this repository. By
  the spec's interface (\<open>getInt\<close>, \<open>setInt\<close> by namespace and key) a read answers what the
  last write to that section and key stored.
\<close>

definition aud_get_int :: "string option \<Rightarrow> string \<Rightarrow> qtaudio \<Rightarrow> int32" where
  "aud_get_int section name s = config s (section, name)"

definition aud_set_int :: "string option \<Rightarrow> string \<Rightarrow> int32 \<Rightarrow> qtaudio \<Rightarrow> qtaudio" where
  "aud_set_int section name v s = s\<lparr>config := (config s)((section, name) := v)\<rparr>"

subsection \<open>Volume\<close>

definition get_volume :: "qtaudio \<Rightarrow> StereoVolume" where
  "get_volume s =
     \<lparr>left = aud_get_int (Some ''qtaudio'') ''vol_left'' s,
      right = aud_get_int (Some ''qtaudio'') ''vol_right'' s\<rparr>"

definition set_volume :: "StereoVolume \<Rightarrow> qtaudio \<Rightarrow> qtaudio" where
  "set_volume v s =
     (let vol_max = aud_max (left v) (right v);
          s1 = aud_set_int (Some ''qtaudio'') ''vol_left'' (left v) s;
          s2 = aud_set_int (Some ''qtaudio'') ''vol_right'' (right v) s1
      in case output_instance s2 of
           None \<Rightarrow> s2
         | Some out \<Rightarrow>
             (let factor = (if vol_max = 0 then Zero else Powf10 vol_max)
              in log [SetVolume out factor] s2))"

subsection \<open>Opening and closing\<close>

text \<open>
  The search of the table. The loop variable \<^verbatim>\<open>it\<close> is a copy of an entry, made anew for
  every round, and the source keeps its address, \<^verbatim>\<open>m = & it\<close>, before it leaves the loop.
  The copy ends with the loop: after it \<^verbatim>\<open>m\<close> is null or the address of a variable that
  is gone. \<open>find_format\<close> returns what the copy held when the loop was left, and \<open>None\<close>
  for a null \<^verbatim>\<open>m\<close>.
\<close>

fun find_format :: "aud_format \<Rightarrow> FormatDescriptionMap list \<Rightarrow> FormatDescriptionMap option" where
  "find_format format [] = None"
| "find_format format (it # rest) =
     (if aud_format it = format then Some it else find_format format rest)"

text \<open>
  After the loop \<^verbatim>\<open>open_audio\<close> reads \<^verbatim>\<open>m->sample_size\<close>, \<^verbatim>\<open>m->endian\<close> and \<^verbatim>\<open>m->sample_type\<close>
  through the address of the copy that is gone. The language does not say what such a
  read finds. The model takes it as the argument \<open>slot\<close>: what the memory at that address
  holds by then, the copy itself where nothing has reused or dropped it, anything else
  where something has. Of the search only whether \<^verbatim>\<open>m\<close> is null is used.
\<close>

definition open_audio ::
  "backend \<Rightarrow> FormatDescriptionMap \<Rightarrow> aud_format \<Rightarrow> int32 \<Rightarrow> int32 \<Rightarrow> qtaudio
     \<Rightarrow> bool \<times> qtaudio" where
  "open_audio dev slot format rate' chan' s =
     (case find_format format FormatMap of
        None \<Rightarrow> (False, log [ShowError (UnsupportedFormat format)] s)
      | Some it \<Rightarrow>
          (let s1 = s\<lparr>chan := chan', rate := rate'\<rparr>;
               s2 = s1\<lparr>buffer_bytes_per_channel :=
                         sample_size slot div 8 + (sample_size slot mod 16) div 8\<rparr>;
               s3 = s2\<lparr>buffer_size :=
                         buffer_bytes_per_channel s2 * chan s2
                         * tdiv (aud_get_int None ''output_buffer_size'' s2 * rate s2) 1000\<rparr>;
               s4 = s3\<lparr>frames_written := 0\<rparr>;
               fmt = \<lparr>sampleRate = rate s4, channelCount = chan s4,
                      sampleSize = sample_size slot, codec = ''audio/pcm'',
                      byteOrder = endian slot, sampleType = sample_type slot\<rparr>;
               s5 = log [IsFormatSupported fmt] s4
           in if \<not> isFormatSupported dev fmt
              then (False, log [ShowError UnsupportedByBackend] s5)
              else
                (let out = new_QAudioOutput dev;
                     s6 = log [NewQAudioOutput fmt out] (s5\<lparr>output_instance := Some out\<rparr>);
                     s7 = log [SetBufferSize out (buffer_size s6)] s6;
                     s8 = log [Start out] (s7\<lparr>buffer_instance := start dev\<rparr>)
                 in (True, set_volume (get_volume s8) s8))))"

definition close_audio :: "qtaudio \<Rightarrow> fault + qtaudio" where
  "close_audio s =
     (case output_instance s of
        None \<Rightarrow> Inl NullPointer
      | Some out \<Rightarrow> Inr ((log [Stop out, Delete out] s)\<lparr>output_instance := None\<rparr>))"

subsection \<open>Buffer space\<close>

text \<open>\<open>free\<close> is what \<^verbatim>\<open>bytesFree ()\<close> answers.\<close>

definition buffer_free :: "int32 \<Rightarrow> qtaudio \<Rightarrow> fault + int32 \<times> qtaudio" where
  "buffer_free free s =
     (case output_instance s of
        None \<Rightarrow> Inl NullPointer
      | Some out \<Rightarrow> Inr (free, log [MutexLock, BytesFree out, MutexUnlock] s))"

text \<open>
  The two waiting loops. The device is read once per test of the loop condition, so the
  device is a sequence of answers, one per test; the loop returns the number of timed
  waits it made, and \<open>None\<close> when it never leaves.
\<close>

partial_function (option) period_wait_loop :: "(nat \<Rightarrow> int32) \<Rightarrow> nat \<Rightarrow> nat option" where
  "period_wait_loop free i =
     (if free i = 0 then period_wait_loop free (Suc i) else Some i)"

text \<open>The log of a loop that made \<open>n\<close> waits with the reads \<open>reads\<close> per test.\<close>

definition wait_log :: "event list \<Rightarrow> nat \<Rightarrow> event list" where
  "wait_log reads n = concat (replicate n (reads @ [CondTimedWait])) @ reads"

definition period_wait :: "(nat \<Rightarrow> int32) \<Rightarrow> qtaudio \<Rightarrow> (fault + qtaudio) option" where
  "period_wait free s =
     (case output_instance s of
        None \<Rightarrow> Some (Inl NullPointer)
      | Some out \<Rightarrow>
          (case period_wait_loop free 0 of
             None \<Rightarrow> None
           | Some n \<Rightarrow>
               Some (Inr (log ([MutexLock] @ wait_log [BytesFree out] n @ [MutexUnlock]) s))))"

text \<open>\<open>dev i\<close> is the pair of \<^verbatim>\<open>bytesFree ()\<close> and \<^verbatim>\<open>bufferSize ()\<close> at the \<open>i\<close>-th test.\<close>

partial_function (option) drain_loop :: "(nat \<Rightarrow> int32 \<times> int32) \<Rightarrow> nat \<Rightarrow> nat option" where
  "drain_loop dev i =
     (if fst (dev i) <s snd (dev i) then drain_loop dev (Suc i) else Some i)"

definition drain :: "(nat \<Rightarrow> int32 \<times> int32) \<Rightarrow> qtaudio \<Rightarrow> (fault + qtaudio) option" where
  "drain dev s =
     (case output_instance s of
        None \<Rightarrow> Some (Inl NullPointer)
      | Some out \<Rightarrow>
          (case drain_loop dev 0 of
             None \<Rightarrow> None
           | Some n \<Rightarrow>
               Some (Inr (log ([MutexLock] @ wait_log [BytesFree out, BufferSize out] n
                               @ [MutexUnlock]) s))))"

subsection \<open>Writing and the clock\<close>

definition write_audio :: "8 word list \<Rightarrow> int32 \<Rightarrow> qtaudio \<Rightarrow> fault + qtaudio" where
  "write_audio data len s =
     (case buffer_instance s of
        None \<Rightarrow> Inl NullPointer
      | Some buf \<Rightarrow>
          (let s1 = log [MutexLock, DeviceWrite buf data len] s
           in case c_div len (buffer_bytes_per_channel s1 * chan s1) of
                Inl f \<Rightarrow> Inl f
              | Inr frames \<Rightarrow>
                  Inr (log [MutexUnlock]
                        (s1\<lparr>frames_written := frames_written s1 + scast frames\<rparr>))))"

text \<open>
  \<open>cap\<close> and \<open>free\<close> are what \<^verbatim>\<open>bufferSize ()\<close> and \<^verbatim>\<open>bytesFree ()\<close> answer. C++ leaves the
  order of the two reads to the compiler; the log has them left to right, here and in
  \<open>drain\<close>.
\<close>

definition output_time :: "int32 \<Rightarrow> int32 \<Rightarrow> qtaudio \<Rightarrow> fault + int32 \<times> qtaudio" where
  "output_time cap free s =
     (case output_instance s of
        None \<Rightarrow> Inl NullPointer
      | Some out \<Rightarrow>
          (let s1 = log [MutexLock, BufferSize out, BytesFree out] s
           in case c_div (cap - free) (buffer_bytes_per_channel s1 * chan s1) of
                Inl f \<Rightarrow> Inl f
              | Inr queued \<Rightarrow>
                  (case c_div ((frames_written s1 - scast queued) * 1000) (scast (rate s1)) of
                     Inl f \<Rightarrow> Inl f
                   | Inr (ms :: int64) \<Rightarrow> Inr (scast ms, log [MutexUnlock] s1))))"

subsection \<open>Transport\<close>

definition pause :: "bool \<Rightarrow> qtaudio \<Rightarrow> fault + qtaudio" where
  "pause p s =
     (case output_instance s of
        None \<Rightarrow> Inl NullPointer
      | Some out \<Rightarrow>
          Inr (log [MutexLock, if p then Suspend out else Resume out,
                    CondBroadcast, MutexUnlock] s))"

text \<open>\<open>restarted\<close> is the \<^verbatim>\<open>QIODevice\<close> that \<^verbatim>\<open>start ()\<close> answers.\<close>

definition flush :: "int32 \<Rightarrow> ptr option \<Rightarrow> qtaudio \<Rightarrow> fault + qtaudio" where
  "flush time restarted s =
     (let s1 = log [MutexLock] s;
          s2 = s1\<lparr>frames_written := tdiv (scast time * scast (rate s1)) 1000\<rparr>
      in case output_instance s2 of
           None \<Rightarrow> Inl NullPointer
         | Some out \<Rightarrow>
             Inr (log [Reset out, Start out, CondBroadcast, MutexUnlock]
                   (s2\<lparr>buffer_instance := restarted\<rparr>)))"

subsection \<open>The calls of the playback engine\<close>

text \<open>
  What the engine may call on an open session, each call with the answers of the device
  that it meets.
\<close>

datatype call =
    Call_write_audio "8 word list" int32
  | Call_pause bool
  | Call_buffer_free int32
  | Call_period_wait "nat \<Rightarrow> int32"
  | Call_drain "nat \<Rightarrow> int32 \<times> int32"
  | Call_output_time int32 int32
  | Call_flush int32 "ptr option"
  | Call_set_volume StereoVolume
  | Call_get_volume

text \<open>One call; \<open>None\<close> when it never returns. The values that \<^verbatim>\<open>buffer_free\<close> and
  \<^verbatim>\<open>output_time\<close> return are dropped.\<close>

fun step :: "call \<Rightarrow> qtaudio \<Rightarrow> (fault + qtaudio) option" where
  "step (Call_write_audio data len) s = Some (write_audio data len s)"
| "step (Call_pause p) s = Some (pause p s)"
| "step (Call_buffer_free free) s = Some (map_sum id snd (buffer_free free s))"
| "step (Call_period_wait free) s = period_wait free s"
| "step (Call_drain dev) s = drain dev s"
| "step (Call_output_time cap free) s = Some (map_sum id snd (output_time cap free s))"
| "step (Call_flush time restarted) s = Some (flush time restarted s)"
| "step (Call_set_volume v) s = Some (Inr (set_volume v s))"
| "step Call_get_volume s = Some (Inr s)"

text \<open>A sequence of calls stops at the first that crashes or never returns.\<close>

fun run :: "call list \<Rightarrow> qtaudio \<Rightarrow> (fault + qtaudio) option" where
  "run [] s = Some (Inr s)"
| "run (c # cs) s =
     (case step c s of
        None \<Rightarrow> None
      | Some (Inl f) \<Rightarrow> Some (Inl f)
      | Some (Inr s') \<Rightarrow> run cs s')"

text \<open>The calls of the invariant: no flush, and no write of a negative length.\<close>

fun advancing :: "call \<Rightarrow> bool" where
  "advancing (Call_flush time restarted) = False"
| "advancing (Call_write_audio data len) = (0 \<le>s len)"
| "advancing c = True"

text \<open>The bytes that the writes of a sequence offer, in all.\<close>

fun bytes_offered :: "call list \<Rightarrow> int" where
  "bytes_offered [] = 0"
| "bytes_offered (Call_write_audio data len # cs) = sint len + bytes_offered cs"
| "bytes_offered (c # cs) = bytes_offered cs"

subsection \<open>Notions of the specification\<close>

text \<open>
  A frame is one sample per channel; its size is the divisor \<^verbatim>\<open>buffer_bytes_per_channel * chan\<close>
  of \<^verbatim>\<open>write_audio\<close> and \<^verbatim>\<open>output_time\<close>.
\<close>

definition bytes_per_frame :: "qtaudio \<Rightarrow> int32" where
  "bytes_per_frame s = buffer_bytes_per_channel s * chan s"

text \<open>The values of \<^verbatim>\<open>int\<close> and of \<^verbatim>\<open>int64_t\<close>.\<close>

definition in_int32 :: "int \<Rightarrow> bool" where
  "in_int32 k \<longleftrightarrow> - (2 ^ 31) \<le> k \<and> k < 2 ^ 31"

definition in_int64 :: "int \<Rightarrow> bool" where
  "in_int64 k \<longleftrightarrow> - (2 ^ 63) \<le> k \<and> k < 2 ^ 63"

text \<open>
  The format that \<^verbatim>\<open>open_audio\<close> builds from what it reads through \<^verbatim>\<open>m\<close> and asks the
  device about.
\<close>

definition requested_format :: "FormatDescriptionMap \<Rightarrow> int32 \<Rightarrow> int32 \<Rightarrow> QAudioFormat" where
  "requested_format m rate' chan' =
     \<lparr>sampleRate = rate', channelCount = chan', sampleSize = sample_size m,
      codec = ''audio/pcm'', byteOrder = endian m, sampleType = sample_type m\<rparr>"

subsection \<open>Concrete sessions\<close>

text \<open>
  The statics before the first call (zero-initialised), over given settings; settings
  with the plugin's volume defaults and an output buffer of 500 ms; a backend that
  accepts every format and one that rejects every format; the memory of the loop's copy
  still holding the entry of \<open>FMT_S16_LE\<close>, and the same memory with 0 where the sample
  size was.
\<close>

definition closed_session :: "(string option \<times> string \<Rightarrow> int32) \<Rightarrow> qtaudio" where
  "closed_session cfg =
     \<lparr>chan = 0, rate = 0, buffer_size = 0, buffer_bytes_per_channel = 0, frames_written = 0,
      output_instance = None, buffer_instance = None, config = cfg, calls = []\<rparr>"

definition settings500 :: "string option \<times> string \<Rightarrow> int32" where
  "settings500 =
     (\<lambda>k. 0)((None, ''output_buffer_size'') := 500,
             (Some ''qtaudio'', ''vol_left'') := 100,
             (Some ''qtaudio'', ''vol_right'') := 100)"

definition accepting :: backend where
  "accepting = \<lparr>isFormatSupported = (\<lambda>f. True), new_QAudioOutput = 1, start = Some 2\<rparr>"

definition rejecting :: backend where
  "rejecting = \<lparr>isFormatSupported = (\<lambda>f. False), new_QAudioOutput = 1, start = Some 2\<rparr>"

definition slot_S16_LE :: FormatDescriptionMap where
  "slot_S16_LE =
     \<lparr>aud_format = FMT_S16_LE, sample_size = 16, sample_type = SignedInt,
      endian = LittleEndian\<rparr>"

definition slot_cleared :: FormatDescriptionMap where
  "slot_cleared = slot_S16_LE\<lparr>sample_size := 0\<rparr>"

text \<open>
  The session after opening 16-bit signed little-endian stereo at 44100 Hz, where the
  reads through \<^verbatim>\<open>m\<close> found the entry.
\<close>

definition cd_session :: qtaudio where
  "cd_session =
     snd (open_audio accepting slot_S16_LE FMT_S16_LE 44100 2 (closed_session settings500))"

text \<open>The statics after that session wrote 1024 frames and was closed.\<close>

definition played_and_closed :: qtaudio where
  "played_and_closed =
     (case write_audio [] 4096 cd_session of
        Inl f \<Rightarrow> cd_session
      | Inr s1 \<Rightarrow> (case close_audio s1 of Inl f \<Rightarrow> s1 | Inr s2 \<Rightarrow> s2))"

text \<open>
  A device that is found with 1000 of its 88200 bytes free at the first two tests of a
  loop and with all of them free from the third on.
\<close>

definition draining :: "nat \<Rightarrow> int32 \<times> int32" where
  "draining i = (if i < 2 then (1000, 88200) else (88200, 88200))"

text \<open>A stretch of playback on the open session: 4096 and 4099 bytes written.\<close>

definition playback :: "call list" where
  "playback =
     [Call_write_audio [] 4096, Call_pause True, Call_buffer_free 84104, Call_pause False,
      Call_period_wait (\<lambda>i. 84104), Call_output_time 88200 84104, Call_set_volume \<lparr>left = 50, right = 50\<rparr>,
      Call_drain draining, Call_write_audio [] 4099]"

section \<open>Properties\<close>

subsection \<open>Truncating division\<close>

lemma abs_sdiv_le_div: "\<bar>(a::int) sdiv b\<bar> \<le> \<bar>a\<bar> div \<bar>b\<bar>"
proof -
  have q: "0 \<le> \<bar>a\<bar> div \<bar>b\<bar>"
    by (simp add: pos_imp_zdiv_nonneg_iff div_int_pos_iff)
  have "\<bar>a sdiv b\<bar> = \<bar>sgn a\<bar> * \<bar>sgn b\<bar> * \<bar>\<bar>a\<bar> div \<bar>b\<bar>\<bar>"
    by (simp only: signed_divide_int_def abs_mult)
  also have "\<dots> = \<bar>sgn a\<bar> * \<bar>sgn b\<bar> * (\<bar>a\<bar> div \<bar>b\<bar>)"
    using q by simp
  also have "\<dots> \<le> \<bar>a\<bar> div \<bar>b\<bar>"
    using q by (simp add: sgn_if)
  finally show ?thesis .
qed

lemma abs_sdiv_le: "\<bar>(a::int) sdiv b\<bar> \<le> \<bar>a\<bar>"
proof -
  have "\<bar>a\<bar> div \<bar>b\<bar> \<le> \<bar>a\<bar>"
  proof (cases "b = 0")
    case False
    then have "\<bar>a\<bar> div \<bar>b\<bar> \<le> \<bar>a\<bar> div 1"
      by (intro zdiv_mono2) simp_all
    then show ?thesis by simp
  qed simp
  with abs_sdiv_le_div [of a b] show ?thesis by linarith
qed

lemma sdiv_in_range:
  fixes a b M :: int
  assumes "- M \<le> a" "a < M" "\<not> (a = - M \<and> b = - 1)"
  shows "- M \<le> a sdiv b \<and> a sdiv b < M"
proof (cases "a = - M")
  case False
  with assms have "\<bar>a\<bar> < M" by simp
  with abs_sdiv_le [of a b] show ?thesis by linarith
next
  case True
  with assms have b: "b \<noteq> - 1" and M: "0 < M" by auto
  have le: "\<bar>a sdiv b\<bar> \<le> M" using abs_sdiv_le [of a b] True M by simp
  have "a sdiv b \<noteq> M"
  proof
    assume eq: "a sdiv b = M"
    show False
    proof (cases "b = 0 \<or> b = 1")
      case True then show False using eq \<open>a = - M\<close> M by auto
    next
      case False
      then have b2: "2 \<le> \<bar>b\<bar>" using b by linarith
      have "\<bar>a\<bar> div \<bar>b\<bar> \<le> \<bar>a\<bar> div 2"
        by (rule zdiv_mono2) (use b2 in simp_all)
      also have "\<dots> < M" using True M by simp
      finally show False using eq M abs_sdiv_le_div [of a b] by simp
    qed
  qed
  with le show ?thesis by linarith
qed

lemma sint_tdiv:
  fixes a b :: "'a::len word"
  assumes "\<not> (sint a = - (2 ^ (LENGTH('a) - 1)) \<and> sint b = - 1)"
  shows "sint (tdiv a b) = sint a sdiv sint b"
proof -
  have "- (2 ^ (LENGTH('a) - 1)) \<le> sint a sdiv sint b \<and> sint a sdiv sint b < 2 ^ (LENGTH('a) - 1)"
    by (rule sdiv_in_range) (use assms sint_ge [of a] sint_lt [of a] in auto)
  then show ?thesis
    by (simp add: tdiv_def sint_sbintrunc' signed_take_bit_int_eq_self)
qed

lemma c_div_Inr:
  "c_div a b = Inr q \<Longrightarrow> b \<noteq> 0 \<and> sint q = sint a sdiv sint b"
  by (auto simp: c_div_def sint_tdiv split: if_splits)

subsection \<open>The table\<close>

lemma find_format_FormatMap:
  "find_format format FormatMap = Some it \<Longrightarrow>
     sample_size it =
       (if format \<in> {FMT_S16_LE, FMT_S16_BE, FMT_U16_LE, FMT_U16_BE} then 16 else 32)"
  by (auto simp: FormatMap_def split: if_splits)

lemma find_S16_LE: "find_format FMT_S16_LE FormatMap = Some slot_S16_LE"
  by (simp add: FormatMap_def slot_S16_LE_def)

lemma aud_set_get_int: "aud_set_int section name (aud_get_int section name s) s = s"
  by (simp add: aud_set_int_def aud_get_int_def)

lemma set_volume_get_volume:
  "set_volume (get_volume s) s =
     (case output_instance s of
        None \<Rightarrow> s
      | Some out \<Rightarrow>
          log [SetVolume out
                (if aud_max (left (get_volume s)) (right (get_volume s)) = 0 then Zero
                 else Powf10 (aud_max (left (get_volume s)) (right (get_volume s))))] s)"
  by (simp add: set_volume_def get_volume_def Let_def aud_set_get_int split: option.split)

lemma settings500_simps:
  "settings500 (None, ''output_buffer_size'') = 500"
  "settings500 (Some ''qtaudio'', ''vol_left'') = 100"
  "settings500 (Some ''qtaudio'', ''vol_right'') = 100"
  by (simp_all add: settings500_def)

lemma cd_session_eq:
  "open_audio accepting slot_S16_LE FMT_S16_LE 44100 2 (closed_session settings500) =
     (True,
      \<lparr>chan = 2, rate = 44100, buffer_size = 88200, buffer_bytes_per_channel = 2,
       frames_written = 0, output_instance = Some 1, buffer_instance = Some 2,
       config = settings500,
       calls =
         [IsFormatSupported
            \<lparr>sampleRate = 44100, channelCount = 2, sampleSize = 16, codec = ''audio/pcm'',
             byteOrder = LittleEndian, sampleType = SignedInt\<rparr>,
          NewQAudioOutput
            \<lparr>sampleRate = 44100, channelCount = 2, sampleSize = 16, codec = ''audio/pcm'',
             byteOrder = LittleEndian, sampleType = SignedInt\<rparr> 1,
          SetBufferSize 1 88200, Start 1, SetVolume 1 (Powf10 100)]\<rparr>)"
  apply (simp add: open_audio_def find_S16_LE Let_def log_def set_volume_get_volume
      closed_session_def accepting_def slot_S16_LE_def)
  apply (simp add: get_volume_def aud_get_int_def aud_max_def tdiv_def settings500_simps log_def)
  done

lemma log_simps:
  "chan (log es s) = chan s"
  "rate (log es s) = rate s"
  "buffer_size (log es s) = buffer_size s"
  "buffer_bytes_per_channel (log es s) = buffer_bytes_per_channel s"
  "frames_written (log es s) = frames_written s"
  "output_instance (log es s) = output_instance s"
  "buffer_instance (log es s) = buffer_instance s"
  "config (log es s) = config s"
  "calls (log es s) = calls s @ es"
  by (simp_all add: log_def)

lemma aud_set_int_simps:
  "chan (aud_set_int sec name v s) = chan s"
  "rate (aud_set_int sec name v s) = rate s"
  "buffer_size (aud_set_int sec name v s) = buffer_size s"
  "buffer_bytes_per_channel (aud_set_int sec name v s) = buffer_bytes_per_channel s"
  "frames_written (aud_set_int sec name v s) = frames_written s"
  "output_instance (aud_set_int sec name v s) = output_instance s"
  "buffer_instance (aud_set_int sec name v s) = buffer_instance s"
  "calls (aud_set_int sec name v s) = calls s"
  by (simp_all add: aud_set_int_def)

lemma set_volume_statics:
  "chan (set_volume v s) = chan s"
  "rate (set_volume v s) = rate s"
  "buffer_size (set_volume v s) = buffer_size s"
  "buffer_bytes_per_channel (set_volume v s) = buffer_bytes_per_channel s"
  "frames_written (set_volume v s) = frames_written s"
  "output_instance (set_volume v s) = output_instance s"
  "buffer_instance (set_volume v s) = buffer_instance s"
  by (simp_all add: set_volume_def Let_def log_simps aud_set_int_simps split: option.split)

lemma open_audio_statics:
  assumes "find_format format FormatMap = Some it"
  shows "chan (snd (open_audio dev slot format rate' chan' s)) = chan'"
    and "rate (snd (open_audio dev slot format rate' chan' s)) = rate'"
    and "buffer_bytes_per_channel (snd (open_audio dev slot format rate' chan' s)) =
           sample_size slot div 8 + (sample_size slot mod 16) div 8"
    and "buffer_size (snd (open_audio dev slot format rate' chan' s)) =
           (sample_size slot div 8 + (sample_size slot mod 16) div 8) * chan'
           * tdiv (aud_get_int None ''output_buffer_size'' s * rate') 1000"
    and "frames_written (snd (open_audio dev slot format rate' chan' s)) = 0"
  using assms by (simp_all add: open_audio_def Let_def aud_get_int_def log_simps
      set_volume_statics)

lemma open_audio_success:
  "fst (open_audio dev slot format rate' chan' s) \<Longrightarrow>
     \<exists>it. find_format format FormatMap = Some it"
  by (cases "find_format format FormatMap") (simp_all add: open_audio_def)

lemma sint_mult32:
  "in_int32 (sint a * sint b) \<Longrightarrow> sint (a * b :: int32) = sint a * sint b"
  by (simp add: in_int32_def sint_word_ariths signed_take_bit_int_eq_self)

lemma sint_tdiv_1000_32: "sint (tdiv (a :: int32) 1000) = sint a sdiv 1000"
  using sint_tdiv [of a 1000] by simp

lemma closed_session_config: "config (closed_session cfg) = cfg"
  by (simp add: closed_session_def)

lemma find_format_None: "find_format format xs = None \<longleftrightarrow> format \<notin> aud_format ` set xs"
  by (induction xs) auto

lemma open_audio_absent:
  assumes "find_format format FormatMap = None"
  shows "open_audio dev slot format rate' chan' s =
           (False, s\<lparr>calls := calls s @ [ShowError (UnsupportedFormat format)]\<rparr>)"
  using assms by (simp add: open_audio_def log_def)

lemma open_audio_rejected:
  assumes "find_format format FormatMap = Some it"
    and "\<not> isFormatSupported dev (requested_format slot rate' chan')"
  shows "open_audio dev slot format rate' chan' s =
           (False,
            s\<lparr>chan := chan', rate := rate',
              buffer_bytes_per_channel :=
                sample_size slot div 8 + (sample_size slot mod 16) div 8,
              buffer_size :=
                (sample_size slot div 8 + (sample_size slot mod 16) div 8) * chan'
                * tdiv (aud_get_int None ''output_buffer_size'' s * rate') 1000,
              frames_written := 0,
              calls := calls s @ [IsFormatSupported (requested_format slot rate' chan'),
                                  ShowError UnsupportedByBackend]\<rparr>)"
  using assms
  by (simp add: open_audio_def log_def Let_def requested_format_def aud_get_int_def)

lemma open_audio_fst:
  assumes "find_format format FormatMap = Some it"
  shows "fst (open_audio dev slot format rate' chan' s) =
           isFormatSupported dev (requested_format slot rate' chan')"
  using assms by (simp add: open_audio_def Let_def requested_format_def)

lemma FormatMap_codes:
  "aud_format ` set FormatMap =
     {FMT_S16_LE, FMT_S16_BE, FMT_U16_LE, FMT_U16_BE, FMT_S32_LE, FMT_S32_BE, FMT_U32_LE,
      FMT_U32_BE, FMT_FLOAT}"
  by (simp add: FormatMap_def)

subsection \<open>Signed values of words\<close>

lemma sint_scast_int64: "sint (scast (x :: int32) :: int64) = sint x"
  by (simp add: sint_up_scast is_up)

lemma sint_scast_int32: "in_int32 (sint (x :: int64)) \<Longrightarrow> sint (scast x :: int32) = sint x"
  using signed_scast_eq [where 'a = int and 'c = 32 and w = x]
  by (simp add: signed_take_bit_int_eq_self in_int32_def)

lemma sint_mult64:
  "in_int64 (sint a * sint b) \<Longrightarrow> sint (a * b :: int64) = sint a * sint b"
  by (simp add: in_int64_def sint_word_ariths signed_take_bit_int_eq_self)

lemma sint_diff32:
  "in_int32 (sint a - sint b) \<Longrightarrow> sint (a - b :: int32) = sint a - sint b"
  by (simp add: in_int32_def sint_word_ariths signed_take_bit_int_eq_self)

lemma sint_diff64:
  "in_int64 (sint a - sint b) \<Longrightarrow> sint (a - b :: int64) = sint a - sint b"
  by (simp add: in_int64_def sint_word_ariths signed_take_bit_int_eq_self)

lemma sint_add64:
  "in_int64 (sint a + sint b) \<Longrightarrow> sint (a + b :: int64) = sint a + sint b"
  by (simp add: in_int64_def sint_word_ariths signed_take_bit_int_eq_self)

lemma sint_tdiv_1000_64: "sint (tdiv (a :: int64) 1000) = sint a sdiv 1000"
  using sint_tdiv [of a 1000] by simp

lemma in_int64_mult32: "in_int64 (sint (a :: int32) * sint (b :: int32))"
proof -
  have a: "\<bar>sint a\<bar> \<le> 2 ^ 31" using sint_ge [of a] sint_lt [of a] by simp
  have b: "\<bar>sint b\<bar> \<le> 2 ^ 31" using sint_ge [of b] sint_lt [of b] by simp
  have "\<bar>sint a * sint b\<bar> \<le> 2 ^ 31 * 2 ^ 31"
    unfolding abs_mult by (rule mult_mono [OF a b]) simp_all
  then have "\<bar>sint a * sint b\<bar> \<le> 4611686018427387904" by simp
  then show ?thesis unfolding in_int64_def by (simp add: abs_le_iff)
qed

lemma c_div_ok:
  fixes a b :: "'a::len word"
  assumes "b \<noteq> 0" and "b \<noteq> - 1"
  shows "c_div a b = Inr (tdiv a b)" and "sint (tdiv a b) = sint a sdiv sint b"
proof -
  from assms(2) have n1: "sint b \<noteq> - 1"
    using word_eq_iff_signed [where 'a = int, of b "- 1"] by simp
  with assms(1) show "c_div a b = Inr (tdiv a b)" by (simp add: c_div_def)
  from n1 show "sint (tdiv a b) = sint a sdiv sint b" by (simp add: sint_tdiv)
qed

lemma scast_int64_eq_iff: "(scast (x :: int32) :: int64) = scast y \<longleftrightarrow> x = y"
  using word_eq_iff_signed [where 'a = int, of "scast x :: int64" "scast y"]
    word_eq_iff_signed [where 'a = int, of x y] by (simp add: sint_scast_int64)

lemma scast_int64_neq:
  "(x :: int32) \<noteq> 0 \<Longrightarrow> (scast x :: int64) \<noteq> 0"
  "(x :: int32) \<noteq> - 1 \<Longrightarrow> (scast x :: int64) \<noteq> - 1"
  using scast_int64_eq_iff [of x 0] scast_int64_eq_iff [of x "- 1"]
  by (simp_all add: scast_0 scast_n1)

lemma cd_session_simp:
  "cd_session =
      \<lparr>chan = 2, rate = 44100, buffer_size = 88200, buffer_bytes_per_channel = 2,
       frames_written = 0, output_instance = Some 1, buffer_instance = Some 2,
       config = settings500,
       calls =
         [IsFormatSupported
            \<lparr>sampleRate = 44100, channelCount = 2, sampleSize = 16, codec = ''audio/pcm'',
             byteOrder = LittleEndian, sampleType = SignedInt\<rparr>,
          NewQAudioOutput
            \<lparr>sampleRate = 44100, channelCount = 2, sampleSize = 16, codec = ''audio/pcm'',
             byteOrder = LittleEndian, sampleType = SignedInt\<rparr> 1,
          SetBufferSize 1 88200, Start 1, SetVolume 1 (Powf10 100)]\<rparr>"
  by (simp add: cd_session_def cd_session_eq)

lemma cd_session_fields:
  "chan cd_session = 2" "rate cd_session = 44100" "buffer_size cd_session = 88200"
  "buffer_bytes_per_channel cd_session = 2" "frames_written cd_session = 0"
  "output_instance cd_session = Some 1" "buffer_instance cd_session = Some 2"
  "config cd_session = settings500" "bytes_per_frame cd_session = 4"
  by (simp_all add: cd_session_simp bytes_per_frame_def)

lemma played_and_closed_fields:
  "chan played_and_closed = 2" "rate played_and_closed = 44100"
  "frames_written played_and_closed = 1024" "output_instance played_and_closed = None"
  by (simp_all add: played_and_closed_def cd_session_simp write_audio_def close_audio_def
      c_div_def tdiv_def Let_def log_def signed_divide_int_def)

subsection \<open>The draining loop\<close>

lemma drain_loop_Some_D:
  assumes "drain_loop dev i = Some n"
  shows "i \<le> n \<and> \<not> fst (dev n) <s snd (dev n)
     \<and> (\<forall>j. i \<le> j \<and> j < n \<longrightarrow> fst (dev j) <s snd (dev j))"
proof (rule drain_loop.raw_induct
    [where P = "\<lambda>dev i n. i \<le> n \<and> \<not> fst (dev n) <s snd (dev n)
       \<and> (\<forall>j. i \<le> j \<and> j < n \<longrightarrow> fst (dev j) <s snd (dev j))", OF _ assms])
  fix loop :: "(nat \<Rightarrow> int32 \<times> int32) \<Rightarrow> nat \<Rightarrow> nat option" and dev i n
  assume IH: "\<And>dev i n. loop dev i = Some n \<Longrightarrow>
     i \<le> n \<and> \<not> fst (dev n) <s snd (dev n)
     \<and> (\<forall>j. i \<le> j \<and> j < n \<longrightarrow> fst (dev j) <s snd (dev j))"
    and eq: "(if fst (dev i) <s snd (dev i) then loop dev (Suc i) else Some i) = Some n"
  show "i \<le> n \<and> \<not> fst (dev n) <s snd (dev n)
     \<and> (\<forall>j. i \<le> j \<and> j < n \<longrightarrow> fst (dev j) <s snd (dev j))"
  proof (cases "fst (dev i) <s snd (dev i)")
    case True
    with eq have "loop dev (Suc i) = Some n" by simp
    from IH [OF this] have le: "Suc i \<le> n" and stop: "\<not> fst (dev n) <s snd (dev n)"
      and rest: "\<And>j. Suc i \<le> j \<Longrightarrow> j < n \<Longrightarrow> fst (dev j) <s snd (dev j)"
      by blast+
    have "fst (dev j) <s snd (dev j)" if "i \<le> j" "j < n" for j
    proof (cases "j = i")
      case True
      with \<open>fst (dev i) <s snd (dev i)\<close> show ?thesis by simp
    next
      case False
      with that have "Suc i \<le> j" by simp
      then show ?thesis using that(2) by (rule rest)
    qed
    with le stop show ?thesis by simp
  next
    case False
    with eq show ?thesis by auto
  qed
qed

lemma drain_loop_Some_I:
  "\<not> fst (dev n) <s snd (dev n) \<Longrightarrow> \<forall>j. i \<le> j \<and> j < n \<longrightarrow> fst (dev j) <s snd (dev j) \<Longrightarrow> i \<le> n
   \<Longrightarrow> drain_loop dev i = Some n"
proof (induction k \<equiv> "n - i" arbitrary: i)
  case 0
  then have "i = n" by simp
  with "0.prems"(1) show ?case by (subst drain_loop.simps) simp
next
  case (Suc k)
  then have less: "i < n" by simp
  with Suc.prems(2) have c: "fst (dev i) <s snd (dev i)" by simp
  have "drain_loop dev (Suc i) = Some n"
  proof (rule Suc.hyps(1))
    show "k = n - Suc i" using Suc.hyps(2) by simp
    show "\<not> fst (dev n) <s snd (dev n)" by (fact Suc.prems(1))
    show "\<forall>j. Suc i \<le> j \<and> j < n \<longrightarrow> fst (dev j) <s snd (dev j)"
      using Suc.prems(2) by simp
    show "Suc i \<le> n" using less by simp
  qed
  with c show ?case by (subst drain_loop.simps) simp
qed

lemma drain_loop_Some_iff:
  "drain_loop dev 0 = Some n \<longleftrightarrow>
     \<not> fst (dev n) <s snd (dev n) \<and> (\<forall>j<n. fst (dev j) <s snd (dev j))"
proof
  assume "drain_loop dev 0 = Some n"
  from drain_loop_Some_D [OF this]
  show "\<not> fst (dev n) <s snd (dev n) \<and> (\<forall>j<n. fst (dev j) <s snd (dev j))"
    by simp
next
  assume a: "\<not> fst (dev n) <s snd (dev n) \<and> (\<forall>j<n. fst (dev j) <s snd (dev j))"
  show "drain_loop dev 0 = Some n"
    by (rule drain_loop_Some_I) (use a in simp_all)
qed

lemma drain_loop_None_iff:
  "drain_loop dev 0 = None \<longleftrightarrow> (\<forall>j. fst (dev j) <s snd (dev j))"
proof
  assume none: "drain_loop dev 0 = None"
  show "\<forall>j. fst (dev j) <s snd (dev j)"
  proof (rule ccontr)
    assume "\<not> (\<forall>j. fst (dev j) <s snd (dev j))"
    then obtain j where j: "\<not> fst (dev j) <s snd (dev j)" by blast
    define m where "m = (LEAST j. \<not> fst (dev j) <s snd (dev j))"
    have stop: "\<not> fst (dev m) <s snd (dev m)" unfolding m_def using j by (rule LeastI)
    have "fst (dev k) <s snd (dev k)" if "k < m" for k
      using not_less_Least [of k "\<lambda>j. \<not> fst (dev j) <s snd (dev j)"] that
      unfolding m_def by simp
    with stop have "drain_loop dev 0 = Some m" by (simp add: drain_loop_Some_iff)
    with none show False by simp
  qed
next
  assume all: "\<forall>j. fst (dev j) <s snd (dev j)"
  show "drain_loop dev 0 = None"
  proof (cases "drain_loop dev 0")
    case (Some n)
    then have "\<not> fst (dev n) <s snd (dev n)" by (simp add: drain_loop_Some_iff)
    with all show ?thesis by simp
  qed simp
qed

lemma sless_sle_eq: "\<not> a <s b \<Longrightarrow> a \<le>s b \<Longrightarrow> a = (b :: int32)"
  using word_eq_iff_signed [where 'a = int, of a b]
  by (simp add: word_sless_alt word_sle_eq)

lemma drain_loop_draining: "drain_loop draining 0 = Some 2"
  by (simp add: drain_loop.simps draining_def)

lemma drain_draining:
  "drain draining cd_session =
     Some (Inr (log [MutexLock, BytesFree 1, BufferSize 1, CondTimedWait,
                     BytesFree 1, BufferSize 1, CondTimedWait,
                     BytesFree 1, BufferSize 1, MutexUnlock] cd_session))"
  by (simp add: drain_def cd_session_fields drain_loop_draining wait_log_def numeral_2_eq_2)

subsection \<open>Sequences of calls\<close>

lemma sdiv_nonneg_bounds:
  fixes a b :: int
  assumes "0 \<le> a" and "0 < b"
  shows "0 \<le> a sdiv b" and "a sdiv b \<le> a"
proof -
  from assms show "0 \<le> a sdiv b"
    by (simp add: signed_divide_int_def sgn_if pos_imp_zdiv_nonneg_iff)
  from abs_sdiv_le [of a b] assms show "a sdiv b \<le> a" by simp
qed

lemma write_audio_Inr_D:
  assumes "write_audio data len s = Inr s'"
  shows "\<exists>frames. c_div len (bytes_per_frame s) = Inr frames
     \<and> frames_written s' = frames_written s + scast frames
     \<and> chan s' = chan s \<and> rate s' = rate s
     \<and> buffer_bytes_per_channel s' = buffer_bytes_per_channel s"
  using assms
  by (auto simp: write_audio_def Let_def bytes_per_frame_def log_simps split: option.splits sum.splits)

lemma pause_Inr_D:
  "pause p s = Inr s' \<Longrightarrow>
     frames_written s' = frames_written s \<and> chan s' = chan s \<and> rate s' = rate s
     \<and> buffer_bytes_per_channel s' = buffer_bytes_per_channel s"
  by (auto simp: pause_def log_simps split: option.splits)

lemma buffer_free_Inr_D:
  "buffer_free free s = Inr (r, s') \<Longrightarrow>
     frames_written s' = frames_written s \<and> chan s' = chan s \<and> rate s' = rate s
     \<and> buffer_bytes_per_channel s' = buffer_bytes_per_channel s"
  by (auto simp: buffer_free_def log_simps split: option.splits)

lemma period_wait_Inr_D:
  "period_wait free s = Some (Inr s') \<Longrightarrow>
     frames_written s' = frames_written s \<and> chan s' = chan s \<and> rate s' = rate s
     \<and> buffer_bytes_per_channel s' = buffer_bytes_per_channel s"
  by (auto simp: period_wait_def log_simps split: option.splits)

lemma drain_Inr_D:
  "drain dev s = Some (Inr s') \<Longrightarrow>
     frames_written s' = frames_written s \<and> chan s' = chan s \<and> rate s' = rate s
     \<and> buffer_bytes_per_channel s' = buffer_bytes_per_channel s"
  by (auto simp: drain_def log_simps split: option.splits)

lemma output_time_Inr_D:
  "output_time cap free s = Inr (r, s') \<Longrightarrow>
     frames_written s' = frames_written s \<and> chan s' = chan s \<and> rate s' = rate s
     \<and> buffer_bytes_per_channel s' = buffer_bytes_per_channel s"
  by (auto simp: output_time_def Let_def log_simps split: option.splits sum.splits)

lemma flush_Inr_D:
  "flush time restarted s = Inr s' \<Longrightarrow>
     frames_written s' = tdiv (scast time * scast (rate s)) 1000 \<and> chan s' = chan s
     \<and> rate s' = rate s \<and> buffer_bytes_per_channel s' = buffer_bytes_per_channel s"
  by (auto simp: flush_def Let_def log_simps split: option.splits)

lemma bytes_offered_Cons:
  "bytes_offered (c # cs) =
     (case c of Call_write_audio data len \<Rightarrow> sint len | _ \<Rightarrow> 0) + bytes_offered cs"
  by (cases c) simp_all

lemma advancing_offer_nonneg:
  "advancing c \<Longrightarrow> 0 \<le> (case c of Call_write_audio data len \<Rightarrow> sint len | _ \<Rightarrow> 0)"
  by (cases c) (simp_all add: word_sle_eq)

lemma bytes_offered_nonneg: "list_all advancing cs \<Longrightarrow> 0 \<le> bytes_offered cs"
proof (induction cs)
  case (Cons c cs)
  then show ?case
    using advancing_offer_nonneg [of c] by (simp add: bytes_offered_Cons)
qed simp

lemma write_audio_advances:
  assumes w: "write_audio data len s = Inr s'"
    and len: "0 \<le> sint len" and bpf: "0 < sint (bytes_per_frame s)"
    and fits: "in_int64 (sint (frames_written s) + sint len sdiv sint (bytes_per_frame s))"
  shows "sint (frames_written s') =
           sint (frames_written s) + sint len sdiv sint (bytes_per_frame s)"
    and "sint (frames_written s) \<le> sint (frames_written s')"
    and "sint (frames_written s') \<le> sint (frames_written s) + sint len"
proof -
  from write_audio_Inr_D [OF w] obtain frames
    where d: "c_div len (bytes_per_frame s) = Inr frames"
      and fw: "frames_written s' = frames_written s + scast frames"
    by blast
  from c_div_Inr [OF d] have fr: "sint frames = sint len sdiv sint (bytes_per_frame s)"
    by simp
  show eq: "sint (frames_written s') =
           sint (frames_written s) + sint len sdiv sint (bytes_per_frame s)"
    unfolding fw using fits by (subst sint_add64) (simp_all add: fr sint_scast_int64)
  from sdiv_nonneg_bounds [OF len bpf] eq
  show "sint (frames_written s) \<le> sint (frames_written s')"
    and "sint (frames_written s') \<le> sint (frames_written s) + sint len"
    by simp_all
qed

lemma step_statics:
  assumes "step c s = Some (Inr s')"
  shows "bytes_per_frame s' = bytes_per_frame s \<and> rate s' = rate s"
proof (cases c)
  case (Call_write_audio data len)
  with assms write_audio_Inr_D [of data len s s'] show ?thesis
    by (auto simp: bytes_per_frame_def)
next
  case (Call_pause p)
  with assms pause_Inr_D [of p s s'] show ?thesis by (simp add: bytes_per_frame_def)
next
  case (Call_buffer_free free)
  with assms obtain r where "buffer_free free s = Inr (r, s')"
    by (cases "buffer_free free s") auto
  from buffer_free_Inr_D [OF this] show ?thesis by (simp add: bytes_per_frame_def)
next
  case (Call_period_wait free)
  with assms period_wait_Inr_D [of free s s'] show ?thesis by (simp add: bytes_per_frame_def)
next
  case (Call_drain dev)
  with assms drain_Inr_D [of dev s s'] show ?thesis by (simp add: bytes_per_frame_def)
next
  case (Call_output_time cap free)
  with assms obtain r where "output_time cap free s = Inr (r, s')"
    by (cases "output_time cap free s") auto
  from output_time_Inr_D [OF this] show ?thesis by (simp add: bytes_per_frame_def)
next
  case (Call_flush time restarted)
  with assms flush_Inr_D [of time restarted s s'] show ?thesis
    by (simp add: bytes_per_frame_def)
next
  case (Call_set_volume v)
  with assms show ?thesis by (auto simp: bytes_per_frame_def set_volume_statics)
next
  case Call_get_volume
  with assms show ?thesis by simp
qed

lemma step_unchanged:
  assumes "step c s = Some (Inr s')"
  shows "case c of
           Call_write_audio data len \<Rightarrow> True
         | Call_flush time restarted \<Rightarrow> True
         | _ \<Rightarrow> frames_written s' = frames_written s"
proof (cases c)
  case (Call_pause p)
  with assms pause_Inr_D [of p s s'] show ?thesis by simp
next
  case (Call_buffer_free free)
  with assms obtain r where "buffer_free free s = Inr (r, s')"
    by (cases "buffer_free free s") auto
  from buffer_free_Inr_D [OF this] Call_buffer_free show ?thesis by simp
next
  case (Call_period_wait free)
  with assms period_wait_Inr_D [of free s s'] show ?thesis by simp
next
  case (Call_drain dev)
  with assms drain_Inr_D [of dev s s'] show ?thesis by simp
next
  case (Call_output_time cap free)
  with assms obtain r where "output_time cap free s = Inr (r, s')"
    by (cases "output_time cap free s") auto
  from output_time_Inr_D [OF this] Call_output_time show ?thesis by simp
next
  case (Call_set_volume v)
  with assms show ?thesis by (auto simp: set_volume_statics)
next
  case Call_get_volume
  with assms show ?thesis by simp
qed simp_all

lemma step_advancing:
  assumes st: "step c s = Some (Inr s')" and adv: "advancing c"
    and bpf: "0 < sint (bytes_per_frame s)"
    and fits: "in_int64 (sint (frames_written s) + bytes_offered [c])"
  shows "sint (frames_written s) \<le> sint (frames_written s')"
    and "sint (frames_written s') \<le> sint (frames_written s) + bytes_offered [c]"
proof -
  have "sint (frames_written s) \<le> sint (frames_written s')
      \<and> sint (frames_written s') \<le> sint (frames_written s) + bytes_offered [c]"
  proof (cases c)
    case (Call_write_audio data len)
    with st have w: "write_audio data len s = Inr s'" by simp
    from adv Call_write_audio have len: "0 \<le> sint len" by (simp add: word_sle_eq)
    from sdiv_nonneg_bounds [OF len bpf] fits Call_write_audio
    have "in_int64 (sint (frames_written s) + sint len sdiv sint (bytes_per_frame s))"
      using sint_ge [of "frames_written s"] by (simp add: in_int64_def)
    from write_audio_advances(2,3) [OF w len bpf this] Call_write_audio
    show ?thesis by simp
  next
    case (Call_flush time restarted)
    with adv show ?thesis by simp
  qed (use step_unchanged [OF st] in simp_all)
  then show "sint (frames_written s) \<le> sint (frames_written s')"
    and "sint (frames_written s') \<le> sint (frames_written s) + bytes_offered [c]"
    by simp_all
qed

lemma run_advancing:
  assumes "run cs s = Some (Inr s')" and "list_all advancing cs"
    and "0 < sint (bytes_per_frame s)"
    and "in_int64 (sint (frames_written s) + bytes_offered cs)"
  shows "sint (frames_written s) \<le> sint (frames_written s')"
  using assms
proof (induction cs arbitrary: s)
  case Nil
  then show ?case by simp
next
  case (Cons c cs)
  from Cons.prems(1) obtain s1 where st: "step c s = Some (Inr s1)"
    and rest: "run cs s1 = Some (Inr s')"
    by (auto split: option.splits sum.splits)
  from Cons.prems(2) have adv: "advancing c" and advs: "list_all advancing cs" by simp_all
  note nn = bytes_offered_nonneg [OF advs] advancing_offer_nonneg [OF adv]
  have split: "bytes_offered (c # cs) = bytes_offered [c] + bytes_offered cs"
    by (simp add: bytes_offered_Cons)
  have one: "0 \<le> bytes_offered [c]"
    using nn(2) by (simp add: bytes_offered_Cons)
  have fits1: "in_int64 (sint (frames_written s) + bytes_offered [c])"
    using Cons.prems(4) nn(1) one sint_ge [of "frames_written s"]
    by (simp add: in_int64_def split)
  note adv1 = step_advancing [OF st adv Cons.prems(3) fits1]
  have bpf1: "0 < sint (bytes_per_frame s1)"
    using step_statics [OF st] Cons.prems(3) by simp
  have fits2: "in_int64 (sint (frames_written s1) + bytes_offered cs)"
    using Cons.prems(4) adv1(2) nn(1) sint_ge [of "frames_written s1"]
    by (simp add: in_int64_def split)
  from Cons.IH [OF rest advs bpf1 fits2] adv1(1) show ?case by simp
qed

lemma period_wait_loop_now: "free 0 \<noteq> 0 \<Longrightarrow> period_wait_loop free 0 = Some 0"
  by (subst period_wait_loop.simps) simp

lemma wait_log_simps:
  "wait_log reads 0 = reads"
  "wait_log reads 2 = reads @ [CondTimedWait] @ reads @ [CondTimedWait] @ reads"
  by (simp_all add: wait_log_def numeral_2_eq_2)

lemma run_playback:
  "\<exists>s'. run playback cd_session = Some (Inr s') \<and> sint (frames_written s') = 2048"
  by (simp add: playback_def cd_session_simp write_audio_def pause_def buffer_free_def
      period_wait_def period_wait_loop_now output_time_def drain_def drain_loop_draining
      set_volume_def aud_set_int_def aud_max_def
      c_div_def tdiv_def Let_def log_def wait_log_simps signed_divide_int_def)

subsection \<open>Claims\<close>

text \<open>
  C1, as amended. For every successful \<^verbatim>\<open>open_audio\<close> the buffer capacity is
  \<^verbatim>\<open>buffer_bytes_per_channel\<close>, times the channel count, times
  (configured output buffer in ms \<times> rate / 1000): the channel count enters once, so the
  capacity is the size of a frame times the number of frames. \<^verbatim>\<open>buffer_bytes_per_channel\<close>
  is what \<^verbatim>\<open>open_audio\<close> computes from the sample size that it reads through \<^verbatim>\<open>m\<close>; where
  that read finds the sample size of the entry of the requested format, it is 2 for the
  16-bit formats and 4 for the others. The format of a successful call is one of the
  table. The equation holds in the 32-bit arithmetic of the code, and over the integers
  whenever no product leaves the range of \<^verbatim>\<open>int\<close>.
\<close>

theorem C1_capacity_channels_once:
  assumes "open_audio dev slot format rate' chan' s = (True, s')"
  shows "format \<in> aud_format ` set FormatMap
    \<and> chan s' = chan' \<and> rate s' = rate'
    \<and> buffer_bytes_per_channel s' = sample_size slot div 8 + (sample_size slot mod 16) div 8
    \<and> (\<forall>it. find_format format FormatMap = Some it \<and> sample_size slot = sample_size it
          \<longrightarrow> buffer_bytes_per_channel s' =
                (if format \<in> {FMT_S16_LE, FMT_S16_BE, FMT_U16_LE, FMT_U16_BE} then 2 else 4))
    \<and> buffer_size s' =
        buffer_bytes_per_channel s' * chan'
        * tdiv (aud_get_int None ''output_buffer_size'' s * rate') 1000
    \<and> (in_int32 (sint (aud_get_int None ''output_buffer_size'' s) * sint rate')
        \<and> in_int32 (sint (buffer_bytes_per_channel s') * sint chan')
        \<and> in_int32 (sint (buffer_bytes_per_channel s') * sint chan'
             * ((sint (aud_get_int None ''output_buffer_size'' s) * sint rate') sdiv 1000))
       \<longrightarrow> sint (buffer_size s') =
             sint (buffer_bytes_per_channel s') * sint chan'
             * ((sint (aud_get_int None ''output_buffer_size'' s) * sint rate') sdiv 1000))"
proof -
  from assms have "fst (open_audio dev slot format rate' chan' s)" by simp
  then obtain it0 where it0: "find_format format FormatMap = Some it0"
    using open_audio_success by blast
  then have known: "format \<in> aud_format ` set FormatMap"
    using find_format_None [of format FormatMap] by simp
  from assms have s': "s' = snd (open_audio dev slot format rate' chan' s)" by simp
  note st = open_audio_statics [OF it0, of dev slot rate' chan' s, folded s']
  have bpc: "buffer_bytes_per_channel s' =
      (if format \<in> {FMT_S16_LE, FMT_S16_BE, FMT_U16_LE, FMT_U16_BE} then 2 else 4)"
    if "find_format format FormatMap = Some it" and "sample_size slot = sample_size it" for it
    using find_format_FormatMap [OF that(1)] that(2) by (simp add: st(3))
  have size: "buffer_size s' =
        buffer_bytes_per_channel s' * chan'
        * tdiv (aud_get_int None ''output_buffer_size'' s * rate') 1000"
    by (simp add: st(3,4))
  have ints: "sint (buffer_size s') =
             sint (buffer_bytes_per_channel s') * sint chan'
             * ((sint (aud_get_int None ''output_buffer_size'' s) * sint rate') sdiv 1000)"
    if a: "in_int32 (sint (aud_get_int None ''output_buffer_size'' s) * sint rate')"
    and b: "in_int32 (sint (buffer_bytes_per_channel s') * sint chan')"
    and c: "in_int32 (sint (buffer_bytes_per_channel s') * sint chan'
             * ((sint (aud_get_int None ''output_buffer_size'' s) * sint rate') sdiv 1000))"
  proof -
    have q: "sint (tdiv (aud_get_int None ''output_buffer_size'' s * rate') 1000) =
          (sint (aud_get_int None ''output_buffer_size'' s) * sint rate') sdiv 1000"
      by (simp add: sint_tdiv_1000_32 sint_mult32 [OF a])
    have p: "sint (buffer_bytes_per_channel s' * chan') =
          sint (buffer_bytes_per_channel s') * sint chan'"
      by (rule sint_mult32 [OF b])
    show ?thesis
      unfolding size using c by (subst sint_mult32) (simp_all add: p q)
  qed
  show ?thesis using known st(1,2,3) bpc size ints by blast
qed

theorem C1_capacity_channels_once_witness:
  "open_audio accepting slot_S16_LE FMT_S16_LE 44100 2 (closed_session settings500) =
     (True, cd_session)
   \<and> find_format FMT_S16_LE FormatMap = Some slot_S16_LE
   \<and> FMT_S16_LE \<in> aud_format ` set FormatMap
   \<and> buffer_bytes_per_channel cd_session = 2
   \<and> in_int32 (500 * 44100) \<and> in_int32 (2 * 2) \<and> in_int32 (2 * 2 * ((500 * 44100) sdiv 1000))
   \<and> sint (buffer_size cd_session) = 2 * 2 * ((500 * 44100) sdiv 1000)"
  using C1_capacity_channels_once
    [of accepting slot_S16_LE FMT_S16_LE 44100 2 "closed_session settings500" cd_session]
  by (simp add: cd_session_def cd_session_eq in_int32_def aud_get_int_def closed_session_config
      settings500_simps signed_divide_int_def find_S16_LE)

text \<open>
  The claim as stated multiplies the frame size by the channel count again. Opening
  16-bit stereo at 44100 Hz with a 500 ms buffer, the reads through \<^verbatim>\<open>m\<close> finding the
  entry, that is 4 \<times> 2 \<times> 22050 = 176400 bytes; the code computes 2 \<times> 2 \<times> 22050 = 88200.
\<close>

theorem C1_capacity_channels_twice_counterexample:
  "fst (open_audio accepting slot_S16_LE FMT_S16_LE 44100 2 (closed_session settings500))
   \<and> sint (buffer_size cd_session) = 88200
   \<and> sint (bytes_per_frame cd_session) = 4 \<and> sint (chan cd_session) = 2
   \<and> sint (bytes_per_frame cd_session) * sint (chan cd_session)
       * ((sint (aud_get_int None ''output_buffer_size'' cd_session) * sint (rate cd_session))
          sdiv 1000) = 176400"
  by (simp add: cd_session_def cd_session_eq bytes_per_frame_def aud_get_int_def
      settings500_simps signed_divide_int_def)

text \<open>
  C2. Opening 16-bit signed little-endian audio at 44100 Hz with 2 channels, the output
  buffer configured to 500 ms, should compute a buffer capacity of 88200 bytes. The code
  computes it from the sample size that it reads through \<^verbatim>\<open>m\<close>, the address of the
  loop's copy that is gone: where that read finds 0, the call succeeds with
  \<^verbatim>\<open>buffer_bytes_per_channel\<close> 0 and a capacity of 0 bytes; where it finds the entry, with
  2 and 88200.
\<close>

theorem C2_capacity_cd_dangling_read:
  "fst (open_audio accepting slot_cleared FMT_S16_LE 44100 2 (closed_session settings500))
   \<and> sint (buffer_bytes_per_channel
        (snd (open_audio accepting slot_cleared FMT_S16_LE 44100 2
               (closed_session settings500)))) = 0
   \<and> sint (buffer_size
        (snd (open_audio accepting slot_cleared FMT_S16_LE 44100 2
               (closed_session settings500)))) = 0
   \<and> sint (buffer_size
        (snd (open_audio accepting slot_S16_LE FMT_S16_LE 44100 2
               (closed_session settings500)))) = 88200"
  by (simp add: open_audio_statics(3,4) [OF find_S16_LE] open_audio_fst [OF find_S16_LE]
      accepting_def slot_cleared_def slot_S16_LE_def aud_get_int_def closed_session_config
      settings500_simps tdiv_def)

text \<open>
  C3. On an open session (frame size and rate neither 0 nor \<open>-1\<close>, the divisors at which a
  division can trap) \<^verbatim>\<open>output_time\<close> locks, reads the device's buffer size and free bytes
  once each, unlocks, and returns
  (frames_written - (buffer size - bytes free) / bytes_per_frame) \<times> 1000 / rate,
  both divisions truncating: the inner quotient in 32 bits, the rest in 64 bits, the
  result converted to \<^verbatim>\<open>int\<close>. That is the value over the integers whenever no step leaves
  its range. No static changes.
\<close>

theorem C3_output_time:
  assumes "output_instance s = Some out"
    and "bytes_per_frame s \<noteq> 0" and "bytes_per_frame s \<noteq> - 1"
    and "rate s \<noteq> 0" and "rate s \<noteq> - 1"
  shows "\<exists>ms. output_time cap free s =
            Inr (ms, s\<lparr>calls := calls s @ [MutexLock, BufferSize out, BytesFree out,
                                           MutexUnlock]\<rparr>)
     \<and> ms = scast (tdiv ((frames_written s - scast (tdiv (cap - free) (bytes_per_frame s)))
                           * 1000) (scast (rate s)))
     \<and> (in_int32 (sint cap - sint free)
         \<and> in_int64 (sint (frames_written s)
                      - (sint cap - sint free) sdiv sint (bytes_per_frame s))
         \<and> in_int64 ((sint (frames_written s)
                       - (sint cap - sint free) sdiv sint (bytes_per_frame s)) * 1000)
         \<and> in_int32 (((sint (frames_written s)
                        - (sint cap - sint free) sdiv sint (bytes_per_frame s)) * 1000)
                      sdiv sint (rate s))
        \<longrightarrow> sint ms =
              ((sint (frames_written s)
                - (sint cap - sint free) sdiv sint (bytes_per_frame s)) * 1000)
              sdiv sint (rate s))"
proof -
  define queued where "queued = tdiv (cap - free) (bytes_per_frame s)"
  define elapsed :: int64 where "elapsed = frames_written s - scast queued"
  define ms :: int64 where "ms = tdiv (elapsed * 1000) (scast (rate s))"
  note d1 = c_div_ok [OF assms(2,3), of "cap - free"]
  note d2 = c_div_ok [OF scast_int64_neq(1) [OF assms(4)] scast_int64_neq(2) [OF assms(5)],
      of "elapsed * 1000"]
  have run: "output_time cap free s =
      Inr (scast ms, s\<lparr>calls := calls s @ [MutexLock, BufferSize out, BytesFree out,
                                           MutexUnlock]\<rparr>)"
    using assms(1) d1(1) d2(1)
    by (simp add: output_time_def Let_def log_def bytes_per_frame_def ms_def elapsed_def
        queued_def)
  have ints: "sint (scast ms :: int32) =
      ((sint (frames_written s) - (sint cap - sint free) sdiv sint (bytes_per_frame s)) * 1000)
      sdiv sint (rate s)"
    if a: "in_int32 (sint cap - sint free)"
    and b: "in_int64 (sint (frames_written s)
                      - (sint cap - sint free) sdiv sint (bytes_per_frame s))"
    and c: "in_int64 ((sint (frames_written s)
                       - (sint cap - sint free) sdiv sint (bytes_per_frame s)) * 1000)"
    and d: "in_int32 (((sint (frames_written s)
                        - (sint cap - sint free) sdiv sint (bytes_per_frame s)) * 1000)
                      sdiv sint (rate s))"
  proof -
    have q: "sint queued = (sint cap - sint free) sdiv sint (bytes_per_frame s)"
      by (simp add: queued_def d1(2) sint_diff32 [OF a])
    have e: "sint elapsed =
        sint (frames_written s) - (sint cap - sint free) sdiv sint (bytes_per_frame s)"
      unfolding elapsed_def using b by (subst sint_diff64) (simp_all add: q sint_scast_int64)
    have e1000: "sint (elapsed * 1000) =
        (sint (frames_written s) - (sint cap - sint free) sdiv sint (bytes_per_frame s)) * 1000"
      using c by (subst sint_mult64) (simp_all add: e)
    have m: "sint ms =
        ((sint (frames_written s) - (sint cap - sint free) sdiv sint (bytes_per_frame s)) * 1000)
        sdiv sint (rate s)"
      by (simp add: ms_def d2(2) e1000 sint_scast_int64)
    show ?thesis
      using d by (subst sint_scast_int32) (simp_all add: m)
  qed
  show ?thesis
  proof (intro exI [of _ "scast ms"] conjI)
    show "output_time cap free s =
      Inr (scast ms, s\<lparr>calls := calls s @ [MutexLock, BufferSize out, BytesFree out,
                                           MutexUnlock]\<rparr>)"
      by (fact run)
    show "scast ms = (scast (tdiv ((frames_written s - scast (tdiv (cap - free) (bytes_per_frame s)))
                           * 1000) (scast (rate s))) :: int32)"
      by (simp add: ms_def elapsed_def queued_def)
    show "in_int32 (sint cap - sint free)
         \<and> in_int64 (sint (frames_written s)
                      - (sint cap - sint free) sdiv sint (bytes_per_frame s))
         \<and> in_int64 ((sint (frames_written s)
                       - (sint cap - sint free) sdiv sint (bytes_per_frame s)) * 1000)
         \<and> in_int32 (((sint (frames_written s)
                        - (sint cap - sint free) sdiv sint (bytes_per_frame s)) * 1000)
                      sdiv sint (rate s))
        \<longrightarrow> sint (scast ms :: int32) =
              ((sint (frames_written s)
                - (sint cap - sint free) sdiv sint (bytes_per_frame s)) * 1000)
              sdiv sint (rate s)"
      using ints by blast
  qed
qed

theorem C3_output_time_witness:
  "output_instance (cd_session\<lparr>frames_written := 44100\<rparr>) = Some 1
   \<and> bytes_per_frame (cd_session\<lparr>frames_written := 44100\<rparr>) = 4
   \<and> rate (cd_session\<lparr>frames_written := 44100\<rparr>) = 44100
   \<and> in_int32 (88200 - 70560) \<and> in_int64 (44100 - (88200 - 70560) sdiv 4)
   \<and> in_int64 ((44100 - (88200 - 70560) sdiv 4) * 1000)
   \<and> in_int32 (((44100 - (88200 - 70560) sdiv 4) * 1000) sdiv 44100)
   \<and> (\<exists>ms. output_time 88200 70560 (cd_session\<lparr>frames_written := 44100\<rparr>) =
             Inr (ms, cd_session\<lparr>frames_written := 44100,
                    calls := calls cd_session @ [MutexLock, BufferSize 1, BytesFree 1,
                                                 MutexUnlock]\<rparr>)
          \<and> sint ms = 900)"
  using C3_output_time [of "cd_session\<lparr>frames_written := 44100\<rparr>" 1 88200 70560]
  by (auto simp: cd_session_fields bytes_per_frame_def in_int32_def in_int64_def
      signed_divide_int_def)

text \<open>
  C4. On an open session \<^verbatim>\<open>flush (time)\<close> sets \<^verbatim>\<open>frames_written\<close> to time \<times> rate / 1000,
  the division truncating (the product is taken in 64 bits and cannot overflow), resets
  and restarts the device, takes the \<^verbatim>\<open>QIODevice\<close> that the restart answers as the new
  write channel, and broadcasts the condition variable; nothing else changes.
\<close>

theorem C4_flush:
  assumes "output_instance s = Some out"
  shows "\<exists>s'. flush time restarted s = Inr s'
     \<and> sint (frames_written s') = (sint time * sint (rate s)) sdiv 1000
     \<and> buffer_instance s' = restarted
     \<and> calls s' = calls s @ [MutexLock, Reset out, Start out, CondBroadcast, MutexUnlock]
     \<and> chan s' = chan s \<and> rate s' = rate s \<and> buffer_size s' = buffer_size s
     \<and> buffer_bytes_per_channel s' = buffer_bytes_per_channel s
     \<and> output_instance s' = output_instance s \<and> config s' = config s"
proof -
  define s' where "s' = s\<lparr>frames_written := tdiv (scast time * scast (rate s)) 1000,
    buffer_instance := restarted,
    calls := calls s @ [MutexLock, Reset out, Start out, CondBroadcast, MutexUnlock]\<rparr>"
  have fl: "flush time restarted s = Inr s'"
    using assms by (simp add: flush_def Let_def log_def s'_def)
  have fw: "sint (frames_written s') = (sint time * sint (rate s)) sdiv 1000"
    by (simp add: s'_def sint_tdiv_1000_64 sint_mult64 in_int64_mult32 sint_scast_int64)
  show ?thesis
    by (rule exI [of _ s']) (simp add: fl fw, simp add: s'_def)
qed

theorem C4_flush_witness:
  "output_instance cd_session = Some 1
   \<and> (\<exists>s'. flush 1500 (Some 3) cd_session = Inr s'
        \<and> sint (frames_written s') = 66150
        \<and> buffer_instance s' = Some 3
        \<and> calls s' = calls cd_session @ [MutexLock, Reset 1, Start 1, CondBroadcast, MutexUnlock])"
  using C4_flush [of cd_session 1 1500 "Some 3"]
  by (auto simp: cd_session_fields signed_divide_int_def)

text \<open>
  C5. On an open session whose frame size is not 0 (nor \<open>-1\<close>, the other divisor at which
  the division can trap), \<^verbatim>\<open>write_audio (data, len)\<close> hands the bytes to the write channel
  and adds len / bytes_per_frame, truncated, to \<^verbatim>\<open>frames_written\<close>, for every \<open>len\<close>, a multiple
  of the frame size or not; the sum is the sum over the integers unless it leaves 64 bits.
  It makes no wait and changes nothing else.
\<close>

theorem C5_write_audio:
  assumes "buffer_instance s = Some buf"
    and "bytes_per_frame s \<noteq> 0" and "bytes_per_frame s \<noteq> - 1"
  shows "\<exists>s'. write_audio data len s = Inr s'
     \<and> frames_written s' = frames_written s + scast (tdiv len (bytes_per_frame s))
     \<and> sint (tdiv len (bytes_per_frame s)) = sint len sdiv sint (bytes_per_frame s)
     \<and> (in_int64 (sint (frames_written s) + sint len sdiv sint (bytes_per_frame s)) \<longrightarrow>
          sint (frames_written s') =
            sint (frames_written s) + sint len sdiv sint (bytes_per_frame s))
     \<and> calls s' = calls s @ [MutexLock, DeviceWrite buf data len, MutexUnlock]
     \<and> chan s' = chan s \<and> rate s' = rate s \<and> buffer_size s' = buffer_size s
     \<and> buffer_bytes_per_channel s' = buffer_bytes_per_channel s
     \<and> output_instance s' = output_instance s \<and> buffer_instance s' = buffer_instance s
     \<and> config s' = config s"
proof -
  define s' where "s' = s\<lparr>frames_written := frames_written s + scast (tdiv len (bytes_per_frame s)),
    calls := calls s @ [MutexLock, DeviceWrite buf data len, MutexUnlock]\<rparr>"
  note d = c_div_ok [OF assms(2,3), of len]
  have w: "write_audio data len s = Inr s'"
    using assms(1) d(1) by (simp add: write_audio_def Let_def log_def s'_def bytes_per_frame_def)
  have fw: "frames_written s' = frames_written s + scast (tdiv len (bytes_per_frame s))"
    by (simp add: s'_def)
  have ints: "sint (frames_written s') =
            sint (frames_written s) + sint len sdiv sint (bytes_per_frame s)"
    if "in_int64 (sint (frames_written s) + sint len sdiv sint (bytes_per_frame s))"
    unfolding fw using that by (subst sint_add64) (simp_all add: d(2) sint_scast_int64)
  show ?thesis
  proof (intro exI [of _ s'] conjI)
    show "in_int64 (sint (frames_written s) + sint len sdiv sint (bytes_per_frame s)) \<longrightarrow>
          sint (frames_written s') =
            sint (frames_written s) + sint len sdiv sint (bytes_per_frame s)"
      using ints by blast
  qed (simp_all add: w d(2) s'_def)
qed

theorem C5_write_audio_witness:
  "buffer_instance cd_session = Some 2
   \<and> bytes_per_frame cd_session \<noteq> 0 \<and> bytes_per_frame cd_session \<noteq> - 1
   \<and> in_int64 (sint (frames_written cd_session) + sint (4099 :: int32) sdiv sint (bytes_per_frame cd_session))
   \<and> (\<exists>s'. write_audio [] 4099 cd_session = Inr s'
        \<and> sint (frames_written s') = 1024
        \<and> calls s' = calls cd_session @ [MutexLock, DeviceWrite 2 [] 4099, MutexUnlock])"
  using C5_write_audio [of cd_session 2 "[]" 4099]
  by (auto simp: cd_session_fields in_int64_def signed_divide_int_def)

text \<open>
  C6. Of the calls on an open session, only \<^verbatim>\<open>flush\<close> and \<^verbatim>\<open>write_audio\<close> assign
  \<^verbatim>\<open>frames_written\<close>: \<^verbatim>\<open>flush (time)\<close> sets it to time \<times> rate / 1000, \<^verbatim>\<open>write_audio\<close> with a
  length that is not negative does not decrease it, and \<^verbatim>\<open>pause\<close>, \<^verbatim>\<open>buffer_free\<close>,
  \<^verbatim>\<open>period_wait\<close>, \<^verbatim>\<open>drain\<close>, \<^verbatim>\<open>output_time\<close> (and the two volume calls) leave it as it
  is. So over every sequence of calls without a flush and without a negative length the
  counter does not decrease. The frame size is taken positive, and the counter is taken
  not to run out of its 64 bits (the bytes offered bound what it gains).
\<close>

theorem C6_frames_written_monotone:
  "(step c s = Some (Inr s') \<longrightarrow>
      (case c of
         Call_flush time restarted \<Rightarrow>
           sint (frames_written s') = (sint time * sint (rate s)) sdiv 1000
       | Call_write_audio data len \<Rightarrow>
           (0 \<le> sint len \<and> 0 < sint (bytes_per_frame s)
            \<and> in_int64 (sint (frames_written s) + sint len sdiv sint (bytes_per_frame s))
            \<longrightarrow> sint (frames_written s) \<le> sint (frames_written s'))
       | _ \<Rightarrow> frames_written s' = frames_written s))
   \<and> (run cs s = Some (Inr s'') \<and> list_all advancing cs
       \<and> 0 < sint (bytes_per_frame s)
       \<and> in_int64 (sint (frames_written s) + bytes_offered cs)
       \<longrightarrow> sint (frames_written s) \<le> sint (frames_written s''))"
proof (intro conjI impI)
  assume st: "step c s = Some (Inr s')"
  show "case c of
         Call_flush time restarted \<Rightarrow>
           sint (frames_written s') = (sint time * sint (rate s)) sdiv 1000
       | Call_write_audio data len \<Rightarrow>
           (0 \<le> sint len \<and> 0 < sint (bytes_per_frame s)
            \<and> in_int64 (sint (frames_written s) + sint len sdiv sint (bytes_per_frame s))
            \<longrightarrow> sint (frames_written s) \<le> sint (frames_written s'))
       | _ \<Rightarrow> frames_written s' = frames_written s"
  proof (cases c)
    case (Call_write_audio data len)
    with st have "write_audio data len s = Inr s'" by simp
    from write_audio_advances(2) [OF this] Call_write_audio show ?thesis by simp
  next
    case (Call_flush time restarted)
    with st flush_Inr_D [of time restarted s s']
    have "frames_written s' = tdiv (scast time * scast (rate s)) 1000" by simp
    then have "sint (frames_written s') = (sint time * sint (rate s)) sdiv 1000"
      by (simp add: sint_tdiv_1000_64 sint_mult64 in_int64_mult32 sint_scast_int64)
    with Call_flush show ?thesis by simp
  qed (use step_unchanged [OF st] in simp_all)
next
  assume "run cs s = Some (Inr s'') \<and> list_all advancing cs
       \<and> 0 < sint (bytes_per_frame s)
       \<and> in_int64 (sint (frames_written s) + bytes_offered cs)"
  then show "sint (frames_written s) \<le> sint (frames_written s'')"
    using run_advancing [of cs s s''] by blast
qed

theorem C6_frames_written_monotone_witness:
  "list_all advancing playback
   \<and> 0 < sint (bytes_per_frame cd_session)
   \<and> in_int64 (sint (frames_written cd_session) + bytes_offered playback)
   \<and> (\<exists>s''. run playback cd_session = Some (Inr s'')
         \<and> sint (frames_written s'') = 2048
         \<and> sint (frames_written cd_session) \<le> sint (frames_written s''))
   \<and> (\<exists>s'. step (Call_flush 1500 (Some 3)) cd_session = Some (Inr s')
         \<and> sint (frames_written s') = 66150)"
proof -
  obtain s'' where r: "run playback cd_session = Some (Inr s'')"
    and fw: "sint (frames_written s'') = 2048"
    using run_playback by blast
  have adv: "list_all advancing playback"
    by (simp add: playback_def word_sle_eq)
  have bpf: "0 < sint (bytes_per_frame cd_session)"
    by (simp add: cd_session_fields)
  have fits: "in_int64 (sint (frames_written cd_session) + bytes_offered playback)"
    by (simp add: playback_def cd_session_fields in_int64_def)
  obtain s' where f: "step (Call_flush 1500 (Some 3)) cd_session = Some (Inr s')"
    by (simp add: flush_def Let_def cd_session_fields log_simps)
  from C6_frames_written_monotone [of "Call_flush 1500 (Some 3)" cd_session s' playback s'']
    f r adv bpf fits
  have "sint (frames_written s') = 66150"
    and "sint (frames_written cd_session) \<le> sint (frames_written s'')"
    by (simp_all add: cd_session_fields signed_divide_int_def)
  with r fw f adv bpf fits show ?thesis by blast
qed

text \<open>
  C7, as amended. A format code that the table does not hold makes \<^verbatim>\<open>open_audio\<close> show
  one error and return false, and nothing else changes. A format that the table holds,
  when the device rejects what \<^verbatim>\<open>open_audio\<close> asks it about, makes it show one error and
  return false with no \<^verbatim>\<open>QAudioOutput\<close> created or started, the two device pointers and
  the settings as they were; but \<^verbatim>\<open>chan\<close> and \<^verbatim>\<open>rate\<close> hold the values of the rejected
  request and \<^verbatim>\<open>frames_written\<close> is 0, since they are assigned before the device is asked.
  (So are \<^verbatim>\<open>buffer_bytes_per_channel\<close> and \<^verbatim>\<open>buffer_size\<close>, of which nothing is said here.)
\<close>

theorem C7_failed_open:
  "(format \<notin> aud_format ` set FormatMap \<longrightarrow>
      open_audio dev slot format rate' chan' s =
        (False, s\<lparr>calls := calls s @ [ShowError (UnsupportedFormat format)]\<rparr>))
   \<and> (format \<in> aud_format ` set FormatMap
        \<and> \<not> isFormatSupported dev (requested_format slot rate' chan') \<longrightarrow>
      (\<exists>s'. open_audio dev slot format rate' chan' s = (False, s')
         \<and> chan s' = chan' \<and> rate s' = rate' \<and> frames_written s' = 0
         \<and> output_instance s' = output_instance s
         \<and> buffer_instance s' = buffer_instance s
         \<and> config s' = config s
         \<and> calls s' = calls s @ [IsFormatSupported (requested_format slot rate' chan'),
                                  ShowError UnsupportedByBackend]))"
proof (intro conjI impI)
  assume "format \<notin> aud_format ` set FormatMap"
  then have "find_format format FormatMap = None" by (simp add: find_format_None)
  then show "open_audio dev slot format rate' chan' s =
        (False, s\<lparr>calls := calls s @ [ShowError (UnsupportedFormat format)]\<rparr>)"
    by (rule open_audio_absent)
next
  assume a: "format \<in> aud_format ` set FormatMap
        \<and> \<not> isFormatSupported dev (requested_format slot rate' chan')"
  then obtain it where it: "find_format format FormatMap = Some it"
    using find_format_None [of format FormatMap] by (cases "find_format format FormatMap") auto
  from a have rej: "\<not> isFormatSupported dev (requested_format slot rate' chan')" by simp
  show "\<exists>s'. open_audio dev slot format rate' chan' s = (False, s')
         \<and> chan s' = chan' \<and> rate s' = rate' \<and> frames_written s' = 0
         \<and> output_instance s' = output_instance s
         \<and> buffer_instance s' = buffer_instance s
         \<and> config s' = config s
         \<and> calls s' = calls s @ [IsFormatSupported (requested_format slot rate' chan'),
                                  ShowError UnsupportedByBackend]"
    unfolding open_audio_rejected [OF it rej] by simp
qed

theorem C7_failed_open_witness:
  "FMT_OTHER 7 \<notin> aud_format ` set FormatMap
   \<and> open_audio accepting slot_S16_LE (FMT_OTHER 7) 44100 2 cd_session =
        (False, cd_session\<lparr>calls := calls cd_session @ [ShowError (UnsupportedFormat (FMT_OTHER 7))]\<rparr>)
   \<and> FMT_S16_LE \<in> aud_format ` set FormatMap
   \<and> \<not> isFormatSupported rejecting (requested_format slot_cleared 48000 6)
   \<and> (\<exists>s'. open_audio rejecting slot_cleared FMT_S16_LE 48000 6 played_and_closed = (False, s')
         \<and> chan s' = 6 \<and> rate s' = 48000 \<and> frames_written s' = 0
         \<and> output_instance s' = None
         \<and> calls s' = calls played_and_closed
              @ [IsFormatSupported (requested_format slot_cleared 48000 6),
                 ShowError UnsupportedByBackend])"
  using C7_failed_open [of "FMT_OTHER 7" accepting slot_S16_LE 44100 2 cd_session]
    C7_failed_open [of FMT_S16_LE rejecting slot_cleared 48000 6 played_and_closed]
  by (auto simp: FormatMap_codes rejecting_def played_and_closed_fields)

text \<open>
  The claim as stated has no state modified by a failed call. After a session at 44100 Hz
  that wrote 1024 frames and was closed, a rejected request for six 16-bit channels at
  48000 Hz leaves \<^verbatim>\<open>frames_written\<close> at 0 and \<^verbatim>\<open>rate\<close> at 48000, whatever the reads through
  \<^verbatim>\<open>m\<close> find (here: the entry, and the entry with sample size 0).
\<close>

theorem C7_rejected_open_modifies_counterexample:
  "FMT_S16_LE \<in> aud_format ` set FormatMap
   \<and> \<not> isFormatSupported rejecting (requested_format slot_S16_LE 48000 6)
   \<and> \<not> isFormatSupported rejecting (requested_format slot_cleared 48000 6)
   \<and> frames_written played_and_closed = 1024 \<and> rate played_and_closed = 44100
   \<and> \<not> fst (open_audio rejecting slot_S16_LE FMT_S16_LE 48000 6 played_and_closed)
   \<and> frames_written (snd (open_audio rejecting slot_S16_LE FMT_S16_LE 48000 6
                            played_and_closed)) = 0
   \<and> rate (snd (open_audio rejecting slot_S16_LE FMT_S16_LE 48000 6 played_and_closed)) = 48000
   \<and> \<not> fst (open_audio rejecting slot_cleared FMT_S16_LE 48000 6 played_and_closed)
   \<and> frames_written (snd (open_audio rejecting slot_cleared FMT_S16_LE 48000 6
                            played_and_closed)) = 0
   \<and> rate (snd (open_audio rejecting slot_cleared FMT_S16_LE 48000 6 played_and_closed)) = 48000"
  by (simp add: open_audio_statics(2,5) [OF find_S16_LE] open_audio_fst [OF find_S16_LE]
      rejecting_def played_and_closed_fields FormatMap_codes)

text \<open>
  C9. On an open session \<^verbatim>\<open>drain\<close> returns exactly when some test of its loop finds the
  free bytes not below the buffer size, after finding them below at every earlier test;
  it never returns if they stay below. Where it returns the free bytes equal the buffer
  size, given that a device never reports more free bytes than its buffer holds. It
  changes no static.
\<close>

theorem C9_drain:
  assumes "output_instance s = Some out"
  shows "(drain dev s = None \<longleftrightarrow> (\<forall>i. fst (dev i) <s snd (dev i)))
     \<and> (\<forall>r. drain dev s = Some r \<longrightarrow>
          (\<exists>n. \<not> fst (dev n) <s snd (dev n)
             \<and> (\<forall>i<n. fst (dev i) <s snd (dev i))
             \<and> (fst (dev n) \<le>s snd (dev n) \<longrightarrow> fst (dev n) = snd (dev n))
             \<and> r = Inr (log ([MutexLock] @ wait_log [BytesFree out, BufferSize out] n
                              @ [MutexUnlock]) s)))"
proof (intro conjI allI impI)
  show "drain dev s = None \<longleftrightarrow> (\<forall>i. fst (dev i) <s snd (dev i))"
    using assms drain_loop_None_iff [of dev]
    by (cases "drain_loop dev 0") (simp_all add: drain_def)
next
  fix r
  assume r: "drain dev s = Some r"
  then obtain n where n: "drain_loop dev 0 = Some n"
    and r': "r = Inr (log ([MutexLock] @ wait_log [BytesFree out, BufferSize out] n
                            @ [MutexUnlock]) s)"
    using assms by (auto simp: drain_def split: option.splits)
  from n have stop: "\<not> fst (dev n) <s snd (dev n)"
    and before: "\<forall>i<n. fst (dev i) <s snd (dev i)"
    by (simp_all add: drain_loop_Some_iff)
  from stop have "fst (dev n) \<le>s snd (dev n) \<longrightarrow> fst (dev n) = snd (dev n)"
    by (blast intro: sless_sle_eq)
  with stop before r'
  show "\<exists>n. \<not> fst (dev n) <s snd (dev n)
             \<and> (\<forall>i<n. fst (dev i) <s snd (dev i))
             \<and> (fst (dev n) \<le>s snd (dev n) \<longrightarrow> fst (dev n) = snd (dev n))
             \<and> r = Inr (log ([MutexLock] @ wait_log [BytesFree out, BufferSize out] n
                              @ [MutexUnlock]) s)"
    by blast
qed

theorem C9_drain_witness:
  "output_instance cd_session = Some 1
   \<and> drain draining cd_session =
       Some (Inr (log [MutexLock, BytesFree 1, BufferSize 1, CondTimedWait,
                       BytesFree 1, BufferSize 1, CondTimedWait,
                       BytesFree 1, BufferSize 1, MutexUnlock] cd_session))
   \<and> fst (draining 0) <s snd (draining 0) \<and> fst (draining 1) <s snd (draining 1)
   \<and> fst (draining 2) \<le>s snd (draining 2)
   \<and> (\<exists>n. fst (draining n) = snd (draining n) \<and> fst (draining n) = 88200)"
proof -
  have op: "output_instance cd_session = Some 1" by (simp add: cd_session_fields)
  from C9_drain [OF op, of draining] drain_draining
  obtain n where stop: "\<not> fst (draining n) <s snd (draining n)"
    and full: "fst (draining n) \<le>s snd (draining n) \<longrightarrow> fst (draining n) = snd (draining n)"
    by blast
  from stop have "2 \<le> n" by (simp add: draining_def word_sless_alt split: if_splits)
  then have "fst (draining n) = 88200" "fst (draining n) \<le>s snd (draining n)"
    by (simp_all add: draining_def)
  with full have "\<exists>n. fst (draining n) = snd (draining n) \<and> fst (draining n) = 88200"
    by blast
  then show ?thesis
    using op drain_draining by (simp add: draining_def word_sless_alt word_sle_eq)
qed

text \<open>
  C10. After \<^verbatim>\<open>set_volume (v)\<close>, \<^verbatim>\<open>get_volume ()\<close> returns \<open>v\<close>, read back from the two
  settings that \<^verbatim>\<open>set_volume\<close> stored, whether a session is open or not. With no session
  open \<^verbatim>\<open>set_volume\<close> makes no call to the device (and it has no failing path); with a
  session open it makes the one \<^verbatim>\<open>setVolume\<close> call.
\<close>

theorem C10_volume_round_trip:
  "get_volume (set_volume v s) = v
   \<and> config (set_volume v s) =
       (config s)((Some ''qtaudio'', ''vol_left'') := left v,
                  (Some ''qtaudio'', ''vol_right'') := right v)
   \<and> (output_instance s = None \<longrightarrow> calls (set_volume v s) = calls s)
   \<and> (\<forall>out. output_instance s = Some out \<longrightarrow>
         calls (set_volume v s) =
           calls s @ [SetVolume out (if aud_max (left v) (right v) = 0 then Zero
                                      else Powf10 (aud_max (left v) (right v)))])"
proof (intro conjI allI impI)
  show "get_volume (set_volume v s) = v"
    by (cases "output_instance s")
      (simp_all add: get_volume_def set_volume_def Let_def aud_get_int_def aud_set_int_def
        log_def)
  show "config (set_volume v s) =
       (config s)((Some ''qtaudio'', ''vol_left'') := left v,
                  (Some ''qtaudio'', ''vol_right'') := right v)"
    by (cases "output_instance s")
      (simp_all add: set_volume_def Let_def aud_set_int_def log_def)
  show "calls (set_volume v s) = calls s" if "output_instance s = None"
    using that by (simp add: set_volume_def Let_def log_simps aud_set_int_simps)
  show "calls (set_volume v s) =
           calls s @ [SetVolume out (if aud_max (left v) (right v) = 0 then Zero
                                      else Powf10 (aud_max (left v) (right v)))]"
    if "output_instance s = Some out" for out
    using that by (simp add: set_volume_def Let_def log_simps aud_set_int_simps)
qed

theorem C10_volume_round_trip_witness:
  "output_instance (closed_session settings500) = None
   \<and> get_volume (set_volume \<lparr>left = 30, right = 70\<rparr> (closed_session settings500)) =
       \<lparr>left = 30, right = 70\<rparr>
   \<and> calls (set_volume \<lparr>left = 30, right = 70\<rparr> (closed_session settings500)) = []
   \<and> output_instance cd_session = Some 1
   \<and> get_volume (set_volume \<lparr>left = 30, right = 70\<rparr> cd_session) = \<lparr>left = 30, right = 70\<rparr>
   \<and> calls (set_volume \<lparr>left = 30, right = 70\<rparr> cd_session) =
       calls cd_session @ [SetVolume 1 (Powf10 70)]"
  using C10_volume_round_trip [of "\<lparr>left = 30, right = 70\<rparr>" "closed_session settings500"]
    C10_volume_round_trip [of "\<lparr>left = 30, right = 70\<rparr>" cd_session]
  by (simp add: closed_session_def cd_session_fields aud_max_def word_sless_alt)

end
